theory Spec2Isabelle
  imports Main
begin

section \<open>The video automation pipeline of \<^verbatim>\<open>main.py\<close>\<close>

text \<open>
  The pipeline asks a text model for video ideas, and for each idea derives a prompt,
  polls a remote text-to-video endpoint until it answers, uploads the file and records
  the outcome in a spreadsheet. The remote services are parameters of the model (an
  environment of stubs); everything the script itself decides (the retry loop, the waits,
  the handlers, the counters, the rows and the request body) is translated from the
  source.
\<close>

subsection \<open>Configuration (class \<^verbatim>\<open>Config\<close>)\<close>

definition NUM_IDEAS :: int where
  "NUM_IDEAS = 3"

definition MAX_RETRIES :: int where
  "MAX_RETRIES = 10"

definition RETRY_WAIT :: int where
  "RETRY_WAIT = 20"

subsection \<open>Exceptions\<close>

text \<open>
  Every handler of the script is \<^verbatim>\<open>except Exception\<close>. A \<^verbatim>\<open>KeyError\<close> (a missing key
  of an idea) and any other \<^verbatim>\<open>Exception\<close> are caught by it; \<^verbatim>\<open>KeyboardInterrupt\<close> derives
  from \<^verbatim>\<open>BaseException\<close> only and passes through every handler.
\<close>

datatype exn = KeyError string | Exception string | KeyboardInterrupt

fun is_Exception :: "exn \<Rightarrow> bool" where
  "is_Exception KeyboardInterrupt = False"
| "is_Exception (KeyError k) = True"
| "is_Exception (Exception m) = True"

text \<open>\<^verbatim>\<open>str(e)\<close>: a \<^verbatim>\<open>KeyError\<close> prints its key in single quotes.\<close>

fun str_exn :: "exn \<Rightarrow> string" where
  "str_exn (KeyError k) = [CHR 0x27] @ k @ [CHR 0x27]"
| "str_exn (Exception m) = m"
| "str_exn KeyboardInterrupt = []"

subsection \<open>Ideas\<close>

text \<open>
  An idea is a dictionary parsed from the model's JSON answer. A key may be absent
  (\<open>None\<close>); a key that is present holds a value of the type the prompt's schema asks for.
  \<open>getitem\<close> is \<^verbatim>\<open>idea[key]\<close>, which raises \<^verbatim>\<open>KeyError\<close> on an absent key.
\<close>

record idea =
  title :: "string option"
  description :: "string option"
  hook :: "string option"
  target_audience :: "string option"
  virality_score :: "int option"
  keywords' :: "string list option"

definition getitem :: "'a option \<Rightarrow> string \<Rightarrow> exn + 'a" where
  "getitem v key = (case v of None \<Rightarrow> Inl (KeyError key) | Some x \<Rightarrow> Inr x)"

subsection \<open>The world the script acts on\<close>

text \<open>
  A generated file \<^verbatim>\<open>video_<timestamp>.mp4\<close> is identified by its timestamp. A spreadsheet
  cell is a string, a number or a time stamp. The two per-item result lines the script
  prints (\<^verbatim>\<open>VIDEO i COMPLETED SUCCESSFULLY!\<close> and \<^verbatim>\<open>VIDEO i FAILED: e\<close>) are kept as events.
\<close>

datatype path = VideoFile int

datatype cell = Str string | Num int | Time int

datatype event = Completed int | Failed int string

record world =
  now :: int
  posts :: nat
  sleeps :: "int list"
  files :: "path set"
  removed :: "path list"
  worksheets :: "string \<rightharpoonup> cell list list"
  console :: "event list"

text \<open>The request body of \<^verbatim>\<open>YouTubeUploader.upload\<close>.\<close>

record body =
  snippet_title :: string
  snippet_description :: string
  snippet_tags :: "string list"
  snippet_categoryId :: string
  status_privacyStatus :: string
  status_madeForKids :: bool

text \<open>
  The remote services. \<open>http_post e n\<close> is the outcome of the \<open>n\<close>-th call of
  \<^verbatim>\<open>requests.post\<close> of the run: a response with its status code and content, or an
  exception (a timeout is one). \<open>youtube_insert\<close> stands for the whole resumable upload of
  one file: it ends with the video id or with an exception. The text model and the upload
  answer as functions of their arguments. \<open>init_clients\<close> is the exception building the four
  clients raises, if any. \<open>sheets_down e name\<close> says that the calls to the spreadsheet service
  for the worksheet \<open>name\<close> fail. An interrupt of the run (\<^verbatim>\<open>KeyboardInterrupt\<close>) is an
  outcome of the stage call during which it arrives.
\<close>

datatype http_outcome = Response int string | RequestRaises exn

record env =
  init_clients :: "exn option"
  claude_ideas :: "exn + idea list"
  claude_prompt :: "idea \<Rightarrow> exn + string"
  http_post :: "nat \<Rightarrow> http_outcome"
  youtube_insert :: "path \<Rightarrow> body \<Rightarrow> exn + string"
  sheets_down :: "string \<Rightarrow> bool"

text \<open>
  \<^verbatim>\<open>time.sleep(n)\<close>: the clock advances, and the wait is recorded. The clock of the
  model advances only while the script sleeps.
\<close>

definition sleep :: "int \<Rightarrow> world \<Rightarrow> world" where
  "sleep n w = w\<lparr>now := now w + n, sleeps := sleeps w @ [n]\<rparr>"

text \<open>One call of \<^verbatim>\<open>requests.post\<close>: the world counts it, the environment answers it.\<close>

definition post :: "env \<Rightarrow> world \<Rightarrow> world \<times> http_outcome" where
  "post e w = (w\<lparr>posts := Suc (posts w)\<rparr>, http_post e (posts w))"

subsection \<open>\<^verbatim>\<open>ClaudeClient.generate_video_prompt\<close>\<close>

text \<open>
  The prompt text is built from four keys of the idea before the \<^verbatim>\<open>try\<close>; the handler around
  the API call prints and re-raises.
\<close>

definition generate_video_prompt :: "env \<Rightarrow> idea \<Rightarrow> exn + string" where
  "generate_video_prompt e idea =
     (case getitem (title idea) ''title'' of Inl x \<Rightarrow> Inl x | Inr t \<Rightarrow>
      (case getitem (description idea) ''description'' of Inl x \<Rightarrow> Inl x | Inr d \<Rightarrow>
       (case getitem (hook idea) ''hook'' of Inl x \<Rightarrow> Inl x | Inr h \<Rightarrow>
        (case getitem (target_audience idea) ''target_audience'' of Inl x \<Rightarrow> Inl x | Inr a \<Rightarrow>
           claude_prompt e idea))))"

subsection \<open>\<^verbatim>\<open>VideoGenerator.generate\<close>\<close>

text \<open>
  The \<^verbatim>\<open>while retry_count < max_retries\<close> loop. A 503 answer waits
  \<^verbatim>\<open>RETRY_WAIT * retry_count\<close> (after the increment), a 200 answer writes the file and
  returns its path, any other answer and any caught exception wait \<^verbatim>\<open>RETRY_WAIT\<close>. Leaving
  the loop returns \<^verbatim>\<open>None\<close>. Writing the file is taken to succeed.
\<close>

function generate_loop :: "env \<Rightarrow> world \<Rightarrow> int \<Rightarrow> int \<Rightarrow> world \<times> (exn + path option)" where
  "generate_loop e w retry_count max_retries =
     (if retry_count < max_retries then
        (case post e w of
           (w1, RequestRaises x) \<Rightarrow>
             if is_Exception x
             then generate_loop e (sleep RETRY_WAIT w1) (retry_count + 1) max_retries
             else (w1, Inl x)
         | (w1, Response status_code content) \<Rightarrow>
             if status_code = 503
             then generate_loop e (sleep (RETRY_WAIT * (retry_count + 1)) w1)
                    (retry_count + 1) max_retries
             else if status_code = 200
             then (let video_path = VideoFile (now w1)
                   in (w1\<lparr>files := insert video_path (files w1)\<rparr>, Inr (Some video_path)))
             else generate_loop e (sleep RETRY_WAIT w1) (retry_count + 1) max_retries)
      else (w, Inr None))"
  by pat_completeness auto
termination
  by (relation "measure (\<lambda>(e, w, retry_count, max_retries). nat (max_retries - retry_count))") auto

definition generate :: "env \<Rightarrow> world \<Rightarrow> string \<Rightarrow> int \<Rightarrow> world \<times> (exn + path option)" where
  "generate e w prompt max_retries = generate_loop e w 0 max_retries"

subsection \<open>\<^verbatim>\<open>SheetsLogger\<close>\<close>

text \<open>
  Every logging method runs inside \<^verbatim>\<open>try ... except Exception\<close> and only warns on failure.
  When the spreadsheet service fails for the worksheet, the method changes nothing; a
  missing key of the idea fails after the worksheet was fetched or created.
\<close>

fun join :: "string \<Rightarrow> string list \<Rightarrow> string" where
  "join sep [] = []"
| "join sep [x] = x"
| "join sep (x # y # ys) = x @ sep @ join sep (y # ys)"

definition get_or_create_worksheet :: "string \<Rightarrow> string list \<Rightarrow> world \<Rightarrow> world" where
  "get_or_create_worksheet name headers w =
     (case worksheets w name of
        Some rows \<Rightarrow> w
      | None \<Rightarrow> w\<lparr>worksheets := (worksheets w)(name \<mapsto> [map Str headers])\<rparr>)"

definition append_row :: "string \<Rightarrow> cell list \<Rightarrow> world \<Rightarrow> world" where
  "append_row name row w =
     w\<lparr>worksheets := (worksheets w)(name \<mapsto>
          (case worksheets w name of None \<Rightarrow> [] | Some rows \<Rightarrow> rows) @ [row])\<rparr>"

definition idea_row :: "int \<Rightarrow> idea \<Rightarrow> exn + cell list" where
  "idea_row t idea =
     (case getitem (title idea) ''title'' of Inl x \<Rightarrow> Inl x | Inr ti \<Rightarrow>
      (case getitem (description idea) ''description'' of Inl x \<Rightarrow> Inl x | Inr d \<Rightarrow>
       (case getitem (hook idea) ''hook'' of Inl x \<Rightarrow> Inl x | Inr h \<Rightarrow>
        (case getitem (target_audience idea) ''target_audience'' of Inl x \<Rightarrow> Inl x | Inr a \<Rightarrow>
         (case getitem (virality_score idea) ''virality_score'' of Inl x \<Rightarrow> Inl x | Inr v \<Rightarrow>
          (case getitem (keywords' idea) ''keywords'' of Inl x \<Rightarrow> Inl x | Inr ks \<Rightarrow>
             Inr [Time t, Str ti, Str d, Str h, Str a, Num v, Str (join '', '' ks),
                  Str ''pending'']))))))"

definition log_idea :: "env \<Rightarrow> world \<Rightarrow> idea \<Rightarrow> world" where
  "log_idea e w idea =
     (if sheets_down e ''Ideas_Log'' then w
      else
        (let w1 = get_or_create_worksheet ''Ideas_Log''
                    [''Timestamp'', ''Title'', ''Description'', ''Hook'', ''Target Audience'',
                     ''Virality Score'', ''Keywords'', ''Status''] w
         in case idea_row (now w) idea of
              Inl x \<Rightarrow> w1
            | Inr row \<Rightarrow> append_row ''Ideas_Log'' row w1))"

definition video_row :: "int \<Rightarrow> idea \<Rightarrow> string \<Rightarrow> string \<Rightarrow> exn + cell list" where
  "video_row t idea youtube_id youtube_url =
     (case getitem (title idea) ''title'' of Inl x \<Rightarrow> Inl x | Inr ti \<Rightarrow>
      (case getitem (virality_score idea) ''virality_score'' of Inl x \<Rightarrow> Inl x | Inr v \<Rightarrow>
       (case getitem (keywords' idea) ''keywords'' of Inl x \<Rightarrow> Inl x | Inr ks \<Rightarrow>
          Inr [Time t, Str ti, Str youtube_url, Str youtube_id, Str ''published'', Num v,
               Str (join '', '' ks)])))"

definition log_video :: "env \<Rightarrow> world \<Rightarrow> idea \<Rightarrow> string \<Rightarrow> string \<Rightarrow> world" where
  "log_video e w idea youtube_id youtube_url =
     (if sheets_down e ''Videos_Log'' then w
      else
        (let w1 = get_or_create_worksheet ''Videos_Log''
                    [''Timestamp'', ''Title'', ''YouTube URL'', ''YouTube ID'', ''Status'',
                     ''Virality Score'', ''Keywords''] w
         in case video_row (now w) idea youtube_id youtube_url of
              Inl x \<Rightarrow> w1
            | Inr row \<Rightarrow> append_row ''Videos_Log'' row w1))"

text \<open>\<^verbatim>\<open>idea.get("title", "Unknown")\<close>, \<^verbatim>\<open>str(error)[:500]\<close> and the fixed stage label.\<close>

definition error_row :: "int \<Rightarrow> idea \<Rightarrow> string \<Rightarrow> cell list" where
  "error_row t idea error =
     [Time t, Str (case title idea of None \<Rightarrow> ''Unknown'' | Some ti \<Rightarrow> ti),
      Str (take 500 error), Str ''video_generation'']"

definition log_error :: "env \<Rightarrow> world \<Rightarrow> idea \<Rightarrow> string \<Rightarrow> world" where
  "log_error e w idea error =
     (if sheets_down e ''Errors_Log'' then w
      else append_row ''Errors_Log'' (error_row (now w) idea error)
             (get_or_create_worksheet ''Errors_Log''
                [''Timestamp'', ''Title'', ''Error'', ''Stage''] w))"

subsection \<open>\<^verbatim>\<open>YouTubeUploader.upload\<close>\<close>

text \<open>\<^verbatim>\<open>kw.replace(' ', '')\<close>.\<close>

definition strip_spaces :: "string \<Rightarrow> string" where
  "strip_spaces kw = filter (\<lambda>c. c \<noteq> CHR '' '') kw"

definition keyword_tags :: "string list \<Rightarrow> string" where
  "keyword_tags kws = join '' '' (map (\<lambda>kw. CHR ''#'' # strip_spaces kw) (take 5 kws))"

definition base_tags :: "string list" where
  "base_tags = [''motivation'', ''success'', ''mindset'', ''shorts'', ''viral'', ''selfimprovement'']"

text \<open>The fire emoji of the description, as its UTF-8 bytes.\<close>

definition fire :: string where
  "fire = [CHR 0xF0, CHR 0x9F, CHR 0x94, CHR 0xA5]"

definition newline :: string where
  "newline = [CHR 0x0A]"

definition make_description :: "string \<Rightarrow> string \<Rightarrow> string list \<Rightarrow> string" where
  "make_description d h kws =
     d @ newline @ newline @ fire @ '' '' @ h @ newline @ newline @ keyword_tags kws
       @ newline @ newline @ ''#motivation #success #mindset #shorts #viral #selfimprovement''"

definition build_body :: "idea \<Rightarrow> exn + body" where
  "build_body idea =
     (case getitem (title idea) ''title'' of Inl x \<Rightarrow> Inl x | Inr t \<Rightarrow>
      (case getitem (keywords' idea) ''keywords'' of Inl x \<Rightarrow> Inl x | Inr kws \<Rightarrow>
       (case getitem (description idea) ''description'' of Inl x \<Rightarrow> Inl x | Inr d \<Rightarrow>
        (case getitem (hook idea) ''hook'' of Inl x \<Rightarrow> Inl x | Inr h \<Rightarrow>
           Inr \<lparr>snippet_title = take 100 t,
                snippet_description = make_description d h kws,
                snippet_tags = take 15 (base_tags @ map strip_spaces (take 5 kws)),
                snippet_categoryId = ''22'',
                status_privacyStatus = ''public'',
                status_madeForKids = False\<rparr>))))"

definition upload :: "env \<Rightarrow> path \<Rightarrow> idea \<Rightarrow> exn + (string \<times> string)" where
  "upload e video_path idea =
     (case build_body idea of
        Inl x \<Rightarrow> Inl x
      | Inr b \<Rightarrow>
          (case youtube_insert e video_path b of
             Inl x \<Rightarrow> Inl x
           | Inr video_id \<Rightarrow> Inr (video_id, ''https://youtube.com/watch?v='' @ video_id)))"

subsection \<open>\<^verbatim>\<open>run_pipeline\<close>\<close>

record stats =
  total :: int
  successful :: int
  failed :: int
  start_time :: int

text \<open>\<^verbatim>\<open>os.remove(video_path)\<close>.\<close>

definition os_remove :: "path \<Rightarrow> world \<Rightarrow> world" where
  "os_remove p w = w\<lparr>files := files w - {p}, removed := removed w @ [p]\<rparr>"

text \<open>
  The body of the inner \<^verbatim>\<open>try\<close>: prompt, video, upload, log, cleanup. The cleanup stands
  after the upload and the log, inside the \<^verbatim>\<open>try\<close>: an exception before it skips it.
\<close>

definition process_stages :: "env \<Rightarrow> world \<Rightarrow> idea \<Rightarrow> world \<times> (exn + unit)" where
  "process_stages e w idea =
     (case generate_video_prompt e idea of
        Inl x \<Rightarrow> (w, Inl x)
      | Inr video_prompt \<Rightarrow>
          (case generate e w video_prompt MAX_RETRIES of
             (w1, Inl x) \<Rightarrow> (w1, Inl x)
           | (w1, Inr None) \<Rightarrow> (w1, Inl (Exception ''Video generation returned None''))
           | (w1, Inr (Some video_path)) \<Rightarrow>
               (case upload e video_path idea of
                  Inl x \<Rightarrow> (w1, Inl x)
                | Inr (video_id, video_url) \<Rightarrow>
                    (let w2 = log_video e w1 idea video_id video_url;
                         w3 = (if video_path \<in> files w2 then os_remove video_path w2 else w2)
                     in (w3, Inr ())))))"

text \<open>
  The four keys the header of an item prints, read before the inner \<^verbatim>\<open>try\<close>: a missing one
  raises \<^verbatim>\<open>KeyError\<close> outside the per-item handler.
\<close>

definition print_header :: "idea \<Rightarrow> exn option" where
  "print_header idea =
     (if title idea = None then Some (KeyError ''title'')
      else if hook idea = None then Some (KeyError ''hook'')
      else if target_audience idea = None then Some (KeyError ''target_audience'')
      else if virality_score idea = None then Some (KeyError ''virality_score'')
      else None)"

text \<open>
  One iteration of the loop over the ideas. The result carries the exception that leaves
  the loop, if any.
\<close>

definition process_idea ::
    "env \<Rightarrow> world \<Rightarrow> stats \<Rightarrow> int \<Rightarrow> idea \<Rightarrow> world \<times> stats \<times> exn option" where
  "process_idea e w st i idea =
     (let st1 = st\<lparr>total := total st + 1\<rparr> in
      case print_header idea of
        Some x \<Rightarrow> (w, st1, Some x)
      | None \<Rightarrow>
          (case process_stages e w idea of
             (w1, Inr u) \<Rightarrow>
               (w1\<lparr>console := console w1 @ [Completed i]\<rparr>,
                st1\<lparr>successful := successful st1 + 1\<rparr>, None)
           | (w1, Inl x) \<Rightarrow>
               if is_Exception x
               then (log_error e (w1\<lparr>console := console w1 @ [Failed i (str_exn x)]\<rparr>) idea
                       (str_exn x),
                     st1\<lparr>failed := failed st1 + 1\<rparr>, None)
               else (w1, st1, Some x)))"

fun process_all ::
    "env \<Rightarrow> world \<Rightarrow> stats \<Rightarrow> int \<Rightarrow> idea list \<Rightarrow> world \<times> stats \<times> exn option" where
  "process_all e w st i [] = (w, st, None)"
| "process_all e w st i (idea # rest) =
     (case process_idea e w st i idea of
        (w1, st1, Some x) \<Rightarrow> (w1, st1, Some x)
      | (w1, st1, None) \<Rightarrow> process_all e w1 st1 (i + 1) rest)"

text \<open>The loop that prints and logs every idea before any is processed.\<close>

fun log_ideas :: "env \<Rightarrow> world \<Rightarrow> idea list \<Rightarrow> world \<times> exn option" where
  "log_ideas e w [] = (w, None)"
| "log_ideas e w (idea # rest) =
     (case title idea of
        None \<Rightarrow> (w, Some (KeyError ''title''))
      | Some t \<Rightarrow> log_ideas e (log_idea e w idea) rest)"

text \<open>
  How a run ends: the early \<^verbatim>\<open>return\<close> when a client cannot be built, an exception that
  leaves \<^verbatim>\<open>run_pipeline\<close> (the outer handler prints and re-raises), or the printed summary
  with the final counters.
\<close>

datatype run_result = InitFailed | Raised exn | Summary stats

definition run_pipeline :: "env \<Rightarrow> world \<Rightarrow> world \<times> run_result" where
  "run_pipeline e w =
     (case init_clients e of
        Some x \<Rightarrow> (w, if is_Exception x then InitFailed else Raised x)
      | None \<Rightarrow>
          (let st = \<lparr>total = 0, successful = 0, failed = 0, start_time = now w\<rparr> in
           case claude_ideas e of
             Inl x \<Rightarrow> (w, Raised x)
           | Inr ideas \<Rightarrow>
               (case log_ideas e w ideas of
                  (w1, Some x) \<Rightarrow> (w1, Raised x)
                | (w1, None) \<Rightarrow>
                    (case process_all e w1 st 1 ideas of
                       (w2, st2, Some x) \<Rightarrow> (w2, Raised x)
                     | (w2, st2, None) \<Rightarrow> (w2, Summary st2)))))"

section \<open>Notions the properties are stated with\<close>

text \<open>
  The waits of \<open>k\<close> consecutive 503 answers that start with the counter at \<open>rc\<close>.
\<close>

definition waits_503 :: "int \<Rightarrow> nat \<Rightarrow> int list" where
  "waits_503 rc k = map (\<lambda>j. RETRY_WAIT * (rc + 1 + int j)) [0..<k]"

text \<open>
  An outcome after which the loop goes on: any response but a 200, and any exception that
  \<^verbatim>\<open>except Exception\<close> catches.
\<close>

definition retried :: "http_outcome \<Rightarrow> bool" where
  "retried out = (case out of Response s c \<Rightarrow> s \<noteq> 200 | RequestRaises x \<Rightarrow> is_Exception x)"

text \<open>
  The wait the specification prescribes after the attempt that brings the counter to \<open>n\<close>:
  \<open>base_wait * n\<close> for a job that is not ready (503), a flat \<open>base_wait\<close> for any other failure.
\<close>

definition wait_after :: "http_outcome \<Rightarrow> int \<Rightarrow> int" where
  "wait_after out n =
     (case out of Response s c \<Rightarrow> if s = 503 then RETRY_WAIT * n else RETRY_WAIT
      | RequestRaises x \<Rightarrow> RETRY_WAIT)"

text \<open>
  No stage call of the environment is interrupted.
\<close>

definition no_interrupt :: "env \<Rightarrow> bool" where
  "no_interrupt e =
     ((\<forall>idea. claude_prompt e idea \<noteq> Inl KeyboardInterrupt)
      \<and> (\<forall>n. http_post e n \<noteq> RequestRaises KeyboardInterrupt)
      \<and> (\<forall>p b. youtube_insert e p b \<noteq> Inl KeyboardInterrupt))"

text \<open>
  The rows of a worksheet (none when it does not exist).
\<close>

definition rows :: "world \<Rightarrow> string \<Rightarrow> cell list list" where
  "rows w name = (case worksheets w name of None \<Rightarrow> [] | Some rs \<Rightarrow> rs)"

text \<open>
  The item an event is about, and whether it reports success.
\<close>

fun event_item :: "event \<Rightarrow> int" where
  "event_item (Completed i) = i"
| "event_item (Failed i reason) = i"

fun is_completed :: "event \<Rightarrow> bool" where
  "is_completed (Completed i) = True"
| "is_completed (Failed i reason) = False"

section \<open>Concrete worlds, ideas and environments\<close>

text \<open>
  An empty world, fresh counters, an idea with every key, and an idea whose title and
  keyword list exceed the limits of the upload.
\<close>

definition w0 :: world where
  "w0 = \<lparr>now = 0, posts = 0, sleeps = [], files = {}, removed = [],
          worksheets = Map.empty, console = []\<rparr>"

definition st0 :: stats where
  "st0 = \<lparr>total = 0, successful = 0, failed = 0, start_time = 0\<rparr>"

definition full_idea :: "string \<Rightarrow> idea" where
  "full_idea t = \<lparr>title = Some t, description = Some ''what it shows'', hook = Some ''look'',
                   target_audience = Some ''students'', virality_score = Some 7,
                   keywords' = Some [''deep work'', ''focus'']\<rparr>"

definition long_idea :: idea where
  "long_idea = \<lparr>title = Some (replicate 120 CHR ''x''), description = Some ''what it shows'',
                  hook = Some ''look'', target_audience = Some ''students'',
                  virality_score = Some 7,
                  keywords' = Some [''deep work'', ''k2'', ''k3'', ''k4'', ''k5'', ''k6'', ''k7'']\<rparr>"

definition three_ideas :: "idea list" where
  "three_ideas = [full_idea ''one'', full_idea ''two'', full_idea ''three'']"

text \<open>
  The same batch with the second idea lacking its \<^verbatim>\<open>hook\<close>, and with the second idea lacking
  its \<^verbatim>\<open>description\<close>.
\<close>

definition hook_missing :: "idea list" where
  "hook_missing = [full_idea ''one'', (full_idea ''two'')\<lparr>hook := None\<rparr>, full_idea ''three'']"

definition description_missing :: "idea list" where
  "description_missing =
     [full_idea ''one'', (full_idea ''two'')\<lparr>description := None\<rparr>, full_idea ''three'']"

text \<open>
  An environment whose clients are built, whose text model answers, and whose spreadsheet
  works; the video endpoint and the upload are given.
\<close>

definition stub :: "(nat \<Rightarrow> http_outcome) \<Rightarrow> (body \<Rightarrow> exn + string) \<Rightarrow> idea list \<Rightarrow> env" where
  "stub http yt ideas =
     \<lparr>init_clients = None, claude_ideas = Inr ideas,
      claude_prompt = (\<lambda>idea. Inr ''a sunrise over a mountain''),
      http_post = http, youtube_insert = (\<lambda>p. yt), sheets_down = (\<lambda>name. False)\<rparr>"

definition always_503 :: "nat \<Rightarrow> http_outcome" where
  "always_503 n = Response 503 ''loading''"

definition ready_after :: "nat \<Rightarrow> nat \<Rightarrow> http_outcome" where
  "ready_after k n = (if n < k then Response 503 ''loading'' else Response 200 ''mp4'')"

definition flaky :: "nat \<Rightarrow> http_outcome" where
  "flaky n =
     (if n = 0 then Response 503 ''loading''
      else if n = 1 then Response 500 ''internal error''
      else if n = 2 then RequestRaises (Exception ''read timed out'')
      else if n = 3 then Response 503 ''loading''
      else Response 200 ''mp4'')"

definition interrupted :: "nat \<Rightarrow> http_outcome" where
  "interrupted n = RequestRaises KeyboardInterrupt"

definition publish_ok :: "body \<Rightarrow> exn + string" where
  "publish_ok b = Inr ''abc123''"

definition publish_unless :: "string \<Rightarrow> body \<Rightarrow> exn + string" where
  "publish_unless t b =
     (if snippet_title b = t then Inl (Exception ''quota exceeded'') else Inr ''abc123'')"

section \<open>Lemmas\<close>

subsection \<open>The retry loop\<close>

declare generate_loop.simps [simp del]

lemma waits_503_Suc: "waits_503 rc (Suc k) = RETRY_WAIT * (rc + 1) # waits_503 (rc + 1) k"
  unfolding waits_503_def
  by (simp add: upt_conv_Cons map_Suc_upt[symmetric] del: upt_Suc add: add.commute add.left_commute o_def)

lemma generate_loop_503s:
  "\<forall>j<k. \<exists>c. http_post e (posts w + j) = Response 503 c \<Longrightarrow> rc + int k \<le> mr \<Longrightarrow>
   generate_loop e w rc mr =
     generate_loop e
       (w\<lparr>now := now w + sum_list (waits_503 rc k), posts := posts w + k,
          sleeps := sleeps w @ waits_503 rc k\<rparr>) (rc + int k) mr"
proof (induction k arbitrary: w rc)
  case 0
  then show ?case by (simp add: waits_503_def)
next
  case (Suc k)
  from Suc.prems(1) obtain c where c: "http_post e (posts w) = Response 503 c"
    by force
  let ?w1 = "sleep (RETRY_WAIT * (rc + 1)) (w\<lparr>posts := Suc (posts w)\<rparr>)"
  have step: "generate_loop e w rc mr = generate_loop e ?w1 (rc + 1) mr"
    using Suc.prems(2) c by (subst generate_loop.simps) (simp add: post_def)
  have later: "\<forall>j<k. \<exists>c. http_post e (posts ?w1 + j) = Response 503 c"
  proof (intro allI impI)
    fix j assume "j < k"
    then have "Suc j < Suc k" by simp
    with Suc.prems(1) obtain c' where "http_post e (posts w + Suc j) = Response 503 c'"
      by blast
    then show "\<exists>c. http_post e (posts ?w1 + j) = Response 503 c"
      by (simp add: sleep_def)
  qed
  have "generate_loop e ?w1 (rc + 1) mr =
     generate_loop e
       (?w1\<lparr>now := now ?w1 + sum_list (waits_503 (rc + 1) k), posts := posts ?w1 + k,
          sleeps := sleeps ?w1 @ waits_503 (rc + 1) k\<rparr>) (rc + 1 + int k) mr"
    using Suc.prems(2) by (intro Suc.IH later) simp
  with step show ?case
    by (simp add: sleep_def waits_503_Suc add.assoc add.commute add.left_commute)
qed

lemma waits_503_zero: "waits_503 0 k = map (\<lambda>n. RETRY_WAIT * int n) [1..<Suc k]"
proof -
  have "[1..<Suc k] = map Suc [0..<k]" by (simp add: map_Suc_upt del: upt_Suc)
  then show ?thesis by (simp add: waits_503_def o_def add.commute del: upt_Suc)
qed

lemma waits_increasing: "sorted_wrt (<) (map (\<lambda>n. RETRY_WAIT * int n) [1..<Suc k])"
  by (simp add: sorted_wrt_map RETRY_WAIT_def sorted_wrt_iff_nth_less del: upt_Suc)

lemma retried_step:
  "rc < mr \<Longrightarrow> retried (http_post e (posts w)) \<Longrightarrow>
   generate_loop e w rc mr =
     generate_loop e (sleep (wait_after (http_post e (posts w)) (rc + 1)) (w\<lparr>posts := Suc (posts w)\<rparr>))
       (rc + 1) mr"
  by (subst generate_loop.simps)
     (simp add: post_def retried_def wait_after_def split: http_outcome.splits)

lemma final_step:
  "rc < mr \<Longrightarrow> \<not> retried (http_post e (posts w)) \<Longrightarrow> generate_loop e w rc mr = (w', r) \<Longrightarrow>
   r \<noteq> Inr None \<and> posts w' = Suc (posts w) \<and> sleeps w' = sleeps w"
  by (subst (asm) generate_loop.simps)
     (auto simp add: post_def retried_def Let_def split: http_outcome.splits if_splits)

lemma generate_loop_waits:
  "generate_loop e w rc mr = (w', r) \<Longrightarrow>
     \<exists>m. sleeps w' = sleeps w @ map (\<lambda>j. wait_after (http_post e (posts w + j)) (rc + 1 + int j)) [0..<m]
       \<and> (\<forall>j<m. retried (http_post e (posts w + j)))
       \<and> posts w' = posts w + m + (if r = Inr None then 0 else 1)
       \<and> rc + int m \<le> max rc mr
       \<and> (r = Inr None \<longrightarrow> rc + int m = max rc mr)"
proof (induction "nat (mr - rc)" arbitrary: w rc)
  case 0
  then have "\<not> rc < mr" by simp
  with 0 have "w' = w" "r = Inr None"
    by (simp_all add: generate_loop.simps)
  with \<open>\<not> rc < mr\<close> show ?case
    by (intro exI[of _ 0]) simp
next
  case (Suc n)
  then have lt: "rc < mr" by simp
  show ?case
  proof (cases "retried (http_post e (posts w))")
    case False
    from final_step[OF lt False Suc.prems] lt show ?thesis
      by (intro exI[of _ 0]) simp
  next
    case True
    let ?w1 = "sleep (wait_after (http_post e (posts w)) (rc + 1)) (w\<lparr>posts := Suc (posts w)\<rparr>)"
    have run: "generate_loop e ?w1 (rc + 1) mr = (w', r)"
      using retried_step[OF lt True] Suc.prems by simp
    have "n = nat (mr - (rc + 1))" using Suc.hyps(2) by simp
    from Suc.hyps(1)[OF this run] obtain m where
      m: "sleeps w' = sleeps ?w1 @ map (\<lambda>j. wait_after (http_post e (posts ?w1 + j)) (rc + 1 + 1 + int j)) [0..<m]"
        "\<forall>j<m. retried (http_post e (posts ?w1 + j))"
        "posts w' = posts ?w1 + m + (if r = Inr None then 0 else 1)"
        "rc + 1 + int m \<le> max (rc + 1) mr"
        "r = Inr None \<longrightarrow> rc + 1 + int m = max (rc + 1) mr"
      by blast
    have a: "sleeps w' = sleeps w @ map (\<lambda>j. wait_after (http_post e (posts w + j)) (rc + 1 + int j)) [0..<Suc m]"
      using m(1) by (simp add: map_upt_Suc sleep_def add.assoc del: upt_Suc)
    have b: "\<forall>j<Suc m. retried (http_post e (posts w + j))"
    proof (intro allI impI)
      fix j assume "j < Suc m"
      show "retried (http_post e (posts w + j))"
      proof (cases j)
        case 0 with True show ?thesis by simp
      next
        case (Suc j')
        with \<open>j < Suc m\<close> m(2) show ?thesis by (simp add: sleep_def)
      qed
    qed
    have c: "posts w' = posts w + Suc m + (if r = Inr None then 0 else 1)"
      using m(3) by (simp add: sleep_def)
    have d: "rc + int (Suc m) \<le> max rc mr" "r = Inr None \<longrightarrow> rc + int (Suc m) = max rc mr"
      using m(4,5) lt by auto
    from a b c d show ?thesis by blast
  qed
qed

lemma is_Exception_iff: "is_Exception x \<longleftrightarrow> x \<noteq> KeyboardInterrupt"
  by (cases x) simp_all

lemma generate_loop_frame:
  "generate_loop e w rc mr = (w', r) \<Longrightarrow>
     console w' = console w \<and> worksheets w' = worksheets w \<and> removed w' = removed w"
proof (induction "nat (mr - rc)" arbitrary: w rc)
  case 0
  then show ?case by (simp add: generate_loop.simps)
next
  case (Suc n)
  then have lt: "rc < mr" by simp
  show ?case
  proof (cases "retried (http_post e (posts w))")
    case False
    with lt Suc.prems show ?thesis
      by (subst (asm) generate_loop.simps)
         (auto simp add: post_def retried_def Let_def split: http_outcome.splits if_splits)
  next
    case True
    let ?w1 = "sleep (wait_after (http_post e (posts w)) (rc + 1)) (w\<lparr>posts := Suc (posts w)\<rparr>)"
    have run: "generate_loop e ?w1 (rc + 1) mr = (w', r)"
      using retried_step[OF lt True] Suc.prems by simp
    have "n = nat (mr - (rc + 1))" using Suc.hyps(2) by simp
    from Suc.hyps(1)[OF this run] show ?thesis by (simp add: sleep_def)
  qed
qed

lemma generate_loop_raises:
  "generate_loop e w rc mr = (w', Inl x) \<Longrightarrow> \<exists>n. http_post e n = RequestRaises x \<and> \<not> is_Exception x"
proof (induction "nat (mr - rc)" arbitrary: w rc)
  case 0
  then show ?case by (simp add: generate_loop.simps)
next
  case (Suc n)
  then have lt: "rc < mr" by simp
  show ?case
  proof (cases "retried (http_post e (posts w))")
    case False
    with lt Suc.prems show ?thesis
      by (subst (asm) generate_loop.simps)
         (auto simp add: post_def retried_def Let_def split: http_outcome.splits if_splits)
  next
    case True
    let ?w1 = "sleep (wait_after (http_post e (posts w)) (rc + 1)) (w\<lparr>posts := Suc (posts w)\<rparr>)"
    have run: "generate_loop e ?w1 (rc + 1) mr = (w', Inl x)"
      using retried_step[OF lt True] Suc.prems by simp
    have "n = nat (mr - (rc + 1))" using Suc.hyps(2) by simp
    from Suc.hyps(1)[OF this run] show ?thesis .
  qed
qed

lemma generate_no_interrupt:
  "no_interrupt e \<Longrightarrow> generate e w p mr = (w', Inl x) \<Longrightarrow> False"
  unfolding generate_def
  by (drule generate_loop_raises) (auto simp: no_interrupt_def is_Exception_iff)

subsection \<open>Stages and their exceptions\<close>

lemma generate_video_prompt_exn:
  "no_interrupt e \<Longrightarrow> generate_video_prompt e idea = Inl x \<Longrightarrow> is_Exception x"
  by (auto simp: generate_video_prompt_def no_interrupt_def is_Exception_iff getitem_def
      split: sum.splits option.splits)

lemma upload_exn:
  "no_interrupt e \<Longrightarrow> upload e p idea = Inl x \<Longrightarrow> is_Exception x"
  by (auto simp: upload_def build_body_def no_interrupt_def is_Exception_iff getitem_def
      split: sum.splits option.splits)

lemma process_stages_exn:
  assumes "no_interrupt e" and "process_stages e w idea = (w1, Inl x)"
  shows "is_Exception x"
  using assms(2) generate_video_prompt_exn[OF assms(1)] upload_exn[OF assms(1)]
    generate_no_interrupt[OF assms(1)]
  by (fastforce simp: process_stages_def Let_def split: sum.splits prod.splits option.splits)

lemma process_stages_fails:
  "(\<forall>x. generate_video_prompt e idea = Inl x \<longrightarrow> snd (process_stages e w idea) = Inl x)
   \<and> (\<forall>p w2. generate_video_prompt e idea = Inr p
         \<and> generate e w p MAX_RETRIES = (w2, Inr None)
         \<longrightarrow> snd (process_stages e w idea) = Inl (Exception ''Video generation returned None''))
   \<and> (\<forall>p w2 f x. generate_video_prompt e idea = Inr p
         \<and> generate e w p MAX_RETRIES = (w2, Inr (Some f)) \<and> upload e f idea = Inl x
         \<longrightarrow> snd (process_stages e w idea) = Inl x)"
  by (simp add: process_stages_def)

lemma keyword_tags_take: "keyword_tags (take 5 kws) = keyword_tags kws"
  by (simp add: keyword_tags_def)

subsection \<open>What the logging methods leave unchanged\<close>

lemma rows_get_or_create:
  "set (rows w n) \<subseteq> set (rows (get_or_create_worksheet name hs w) n)"
  by (auto simp: rows_def get_or_create_worksheet_def split: option.splits)

lemma rows_append_row: "set (rows w n) \<subseteq> set (rows (append_row name row w) n)"
  by (auto simp: rows_def append_row_def split: option.splits)

lemma rows_append_row_mem: "row \<in> set (rows (append_row name row w) name)"
  by (simp add: rows_def append_row_def)

lemma console_sheets [simp]:
  "console (get_or_create_worksheet name hs w) = console w"
  "console (append_row name row w) = console w"
  by (simp_all add: get_or_create_worksheet_def append_row_def split: option.splits)

lemma log_idea_frame:
  "console (log_idea e w idea) = console w \<and> set (rows w n) \<subseteq> set (rows (log_idea e w idea) n)"
  using rows_get_or_create rows_append_row
  by (fastforce simp: log_idea_def Let_def split: sum.splits)

lemma log_video_frame:
  "console (log_video e w idea a b) = console w
     \<and> set (rows w n) \<subseteq> set (rows (log_video e w idea a b) n)"
  using rows_get_or_create rows_append_row
  by (fastforce simp: log_video_def Let_def split: sum.splits)

lemma log_error_frame:
  "console (log_error e w idea m) = console w
     \<and> set (rows w n) \<subseteq> set (rows (log_error e w idea m) n)"
  using rows_get_or_create rows_append_row
  by (fastforce simp: log_error_def)

lemma log_error_logged:
  "\<not> sheets_down e ''Errors_Log'' \<Longrightarrow>
     error_row (now w) idea m \<in> set (rows (log_error e w idea m) ''Errors_Log'')"
  by (simp add: log_error_def rows_append_row_mem)

lemma os_remove_frame:
  "console (os_remove p w) = console w \<and> rows (os_remove p w) n = rows w n"
  by (simp add: os_remove_def rows_def)

lemma generate_frame:
  "generate e w p mr = (w', r) \<Longrightarrow> console w' = console w \<and> rows w' n = rows w n"
  unfolding generate_def by (drule generate_loop_frame) (simp add: rows_def)

lemma process_stages_frame:
  assumes "process_stages e w idea = (w1, r)"
  shows "console w1 = console w \<and> set (rows w n) \<subseteq> set (rows w1 n)"
proof (cases "generate_video_prompt e idea")
  case (Inl x)
  with assms show ?thesis by (simp add: process_stages_def)
next
  case (Inr vp)
  obtain wg rg where g: "generate e w vp MAX_RETRIES = (wg, rg)" by force
  note fg = generate_frame[OF g, of n]
  show ?thesis
  proof (cases "\<exists>p v u. rg = Inr (Some p) \<and> upload e p idea = Inr (v, u)")
    case False
    with assms Inr g have "w1 = wg"
      by (auto simp: process_stages_def split: sum.splits option.splits prod.splits)
    with fg show ?thesis by simp
  next
    case True
    then obtain p v u where pu: "rg = Inr (Some p)" "upload e p idea = Inr (v, u)" by blast
    let ?w2 = "log_video e wg idea v u"
    have w1: "w1 = (if p \<in> files ?w2 then os_remove p ?w2 else ?w2)"
      using assms Inr g pu by (simp add: process_stages_def Let_def)
    have "console w1 = console wg \<and> set (rows wg n) \<subseteq> set (rows w1 n)"
      using log_video_frame[of e wg idea v u n] by (simp add: w1 os_remove_frame)
    with fg show ?thesis by simp
  qed
qed

subsection \<open>The loop over the ideas\<close>

lemma process_idea_ok:
  assumes hdr: "print_header idea = None" and ni: "no_interrupt e"
  shows "\<exists>w' st'. process_idea e w st i idea = (w', st', None)
           \<and> total st' = total st + 1
           \<and> console w' = console w @
                [case snd (process_stages e w idea) of
                   Inl x \<Rightarrow> Failed i (str_exn x) | Inr u \<Rightarrow> Completed i]
           \<and> (\<forall>n. set (rows w n) \<subseteq> set (rows w' n))
           \<and> (\<forall>w2 x. process_stages e w idea = (w2, Inl x) \<longrightarrow> \<not> sheets_down e ''Errors_Log'' \<longrightarrow>
                  error_row (now w2) idea (str_exn x) \<in> set (rows w' ''Errors_Log''))"
proof -
  obtain w2 r where ps: "process_stages e w idea = (w2, r)" by force
  have fr: "console w2 = console w" "\<And>n. set (rows w n) \<subseteq> set (rows w2 n)"
    using process_stages_frame[OF ps] by simp_all
  show ?thesis
  proof (cases r)
    case (Inr u)
    have "\<And>n. rows (w2\<lparr>console := console w2 @ [Completed i]\<rparr>) n = rows w2 n"
      by (simp add: rows_def)
    with Inr ps hdr fr show ?thesis
      by (simp add: process_idea_def Let_def)
  next
    case (Inl x)
    with ps ni have ex: "is_Exception x" using process_stages_exn by blast
    let ?w3 = "w2\<lparr>console := console w2 @ [Failed i (str_exn x)]\<rparr>"
    let ?w4 = "log_error e ?w3 idea (str_exn x)"
    have pi: "process_idea e w st i idea =
        (?w4, st\<lparr>total := total st + 1, failed := failed st + 1\<rparr>, None)"
      using Inl ps hdr ex by (simp add: process_idea_def Let_def)
    have r3: "\<And>n. rows ?w3 n = rows w2 n" by (simp add: rows_def)
    have c4: "console ?w4 = console w @ [Failed i (str_exn x)]"
      using log_error_frame[of e ?w3 idea "str_exn x"] fr by simp
    have r4: "\<And>n. set (rows w n) \<subseteq> set (rows ?w4 n)"
      using log_error_frame[of e ?w3 idea "str_exn x"] fr(2) r3 by fastforce
    have l4: "\<not> sheets_down e ''Errors_Log'' \<Longrightarrow>
        error_row (now w2) idea (str_exn x) \<in> set (rows ?w4 ''Errors_Log'')"
      using log_error_logged[of e ?w3 idea "str_exn x"] by simp
    from pi c4 r4 l4 Inl ps show ?thesis by simp
  qed
qed

lemma process_idea_counts:
  assumes "process_idea e w st i idea = (w', st', None)"
  shows "total st' = total st + 1 \<and> start_time st' = start_time st
         \<and> (\<exists>ev. console w' = console w @ [ev] \<and> event_item ev = i
              \<and> successful st' = successful st + (if is_completed ev then 1 else 0)
              \<and> failed st' = failed st + (if is_completed ev then 0 else 1))"
proof -
  obtain w2 r where ps: "process_stages e w idea = (w2, r)" by force
  have fr: "console w2 = console w" using process_stages_frame[OF ps] by simp
  from assms have hdr: "print_header idea = None"
    by (auto simp: process_idea_def Let_def split: option.splits)
  show ?thesis
  proof (cases r)
    case (Inr u)
    with assms ps hdr fr show ?thesis
      by (auto simp: process_idea_def Let_def)
  next
    case (Inl x)
    with assms ps hdr have ex: "is_Exception x"
      by (auto simp: process_idea_def Let_def split: if_splits)
    let ?w3 = "w2\<lparr>console := console w2 @ [Failed i (str_exn x)]\<rparr>"
    have "console (log_error e ?w3 idea (str_exn x)) = console w @ [Failed i (str_exn x)]"
      using log_error_frame[of e ?w3 idea "str_exn x"] fr by simp
    with assms ps hdr Inl ex show ?thesis
      by (auto simp: process_idea_def Let_def)
  qed
qed

lemma process_all_counts:
  "process_all e w st i ideas = (w', st', None) \<Longrightarrow>
     total st' = total st + int (length ideas) \<and> start_time st' = start_time st
     \<and> (\<exists>es. console w' = console w @ es
           \<and> map event_item es = map (\<lambda>j. i + int j) [0..<length ideas]
           \<and> successful st' = successful st + int (length (filter is_completed es))
           \<and> failed st' = failed st + int (length (filter (\<lambda>ev. \<not> is_completed ev) es)))"
proof (induction ideas arbitrary: w st i)
  case Nil
  then show ?case by simp
next
  case (Cons idea rest)
  obtain w1 st1 r1 where p1: "process_idea e w st i idea = (w1, st1, r1)"
    by (metis prod_cases3)
  with Cons.prems have r1: "r1 = None" and rest: "process_all e w1 st1 (i + 1) rest = (w', st', None)"
    by (auto split: option.splits)
  from process_idea_counts[OF p1[unfolded r1]] obtain ev where
    ev: "total st1 = total st + 1" "start_time st1 = start_time st"
      "console w1 = console w @ [ev]" "event_item ev = i"
      "successful st1 = successful st + (if is_completed ev then 1 else 0)"
      "failed st1 = failed st + (if is_completed ev then 0 else 1)"
    by blast
  from Cons.IH[OF rest] obtain es where
    es: "total st' = total st1 + int (length rest)" "start_time st' = start_time st1"
      "console w' = console w1 @ es"
      "map event_item es = map (\<lambda>j. i + 1 + int j) [0..<length rest]"
      "successful st' = successful st1 + int (length (filter is_completed es))"
      "failed st' = failed st1 + int (length (filter (\<lambda>ev. \<not> is_completed ev) es))"
    by blast
  have m: "map event_item (ev # es) = map (\<lambda>j. i + int j) [0..<length (idea # rest)]"
    using ev(4) es(4) by (simp add: map_upt_Suc add.assoc del: upt_Suc)
  have "console w' = console w @ (ev # es)" using ev(3) es(3) by simp
  moreover have "successful st' = successful st + int (length (filter is_completed (ev # es)))"
    using ev(5) es(5) by simp
  moreover have "failed st' = failed st + int (length (filter (\<lambda>ev. \<not> is_completed ev) (ev # es)))"
    using ev(6) es(6) by simp
  moreover have "total st' = total st + int (length (idea # rest))" "start_time st' = start_time st"
    using ev(1,2) es(1,2) by simp_all
  ultimately show ?case using m by blast
qed

lemma process_all_append:
  "process_all e w st i (xs @ ys) =
     (case process_all e w st i xs of
        (w1, st1, None) \<Rightarrow> process_all e w1 st1 (i + int (length xs)) ys
      | (w1, st1, Some x) \<Rightarrow> (w1, st1, Some x))"
proof (induction xs arbitrary: w st i)
  case Nil
  then show ?case by simp
next
  case (Cons a xs)
  show ?case
    by (simp add: Cons.IH add.assoc split: prod.splits option.splits)
qed

lemma process_all_ok:
  assumes "\<forall>idea \<in> set ideas. print_header idea = None" and ni: "no_interrupt e"
  shows "\<exists>w' st'. process_all e w st i ideas = (w', st', None)
            \<and> (\<forall>n. set (rows w n) \<subseteq> set (rows w' n))"
  using assms(1)
proof (induction ideas arbitrary: w st i)
  case Nil
  then show ?case by simp
next
  case (Cons idea rest)
  then have hdr: "print_header idea = None" by simp
  from process_idea_ok[OF hdr ni, of w st i] obtain w1 st1 where
    p1: "process_idea e w st i idea = (w1, st1, None)"
      and r1: "\<forall>n. set (rows w n) \<subseteq> set (rows w1 n)"
    by blast
  from Cons.prems have "\<forall>idea \<in> set rest. print_header idea = None" by simp
  from Cons.IH[OF this, of w1 st1 "i + 1"] obtain w' st' where
    p2: "process_all e w1 st1 (i + 1) rest = (w', st', None)"
      and r2: "\<forall>n. set (rows w1 n) \<subseteq> set (rows w' n)"
    by blast
  from r1 r2 have "\<forall>n. set (rows w n) \<subseteq> set (rows w' n)" by blast
  with p1 p2 show ?case by simp
qed

lemma print_header_title: "print_header x = None \<Longrightarrow> title x \<noteq> None"
  by (auto simp: print_header_def split: if_splits)

lemma log_ideas_frame: "log_ideas e w ideas = (w1, r) \<Longrightarrow> console w1 = console w"
proof (induction ideas arbitrary: w)
  case Nil
  then show ?case by simp
next
  case (Cons x xs)
  show ?case
  proof (cases "title x")
    case None
    with Cons.prems show ?thesis by simp
  next
    case (Some t)
    with Cons.prems have "log_ideas e (log_idea e w x) xs = (w1, r)" by simp
    from Cons.IH[OF this] show ?thesis using log_idea_frame[of e w x] by simp
  qed
qed

lemma log_ideas_ok:
  "\<forall>x \<in> set ideas. title x \<noteq> None \<Longrightarrow> \<exists>w1. log_ideas e w ideas = (w1, None)"
  by (induction ideas arbitrary: w) auto

text \<open>
  The equations that evaluate a concrete run.
\<close>

lemmas run_defs =
  process_idea_def process_stages_def print_header_def generate_video_prompt_def getitem_def
  generate_def generate_loop.simps post_def sleep_def upload_def build_body_def
  log_video_def video_row_def log_idea_def idea_row_def log_error_def error_row_def
  get_or_create_worksheet_def append_row_def os_remove_def run_pipeline_def
  stub_def full_idea_def w0_def st0_def MAX_RETRIES_def RETRY_WAIT_def Let_def
  ready_after_def always_503_def publish_ok_def publish_unless_def three_ideas_def
  interrupted_def rows_def hook_missing_def description_missing_def

subsection \<open>Isolation when every header is printed\<close>

text \<open>
  Take any batch in which every idea carries the keys its header prints, and an environment
  that interrupts no stage call. Whatever happened to the ideas
  \<open>xs\<close> before it, the idea gets exactly one event: \<open>Failed\<close> with the reason when one of its
  stages fails, \<open>Completed\<close> otherwise. A failure is written to the error sheet (when the
  spreadsheet works), and the loop goes on: every later idea of \<open>ys\<close> gets its event in order,
  every idea is counted, and no exception leaves the loop. The stages fail when the prompt
  derivation raises, when the video generation returns \<^verbatim>\<open>None\<close>, or when the upload raises.
\<close>

lemma isolation_when_headers_print:
  assumes hdr: "\<forall>x \<in> set (xs @ idea # ys). print_header x = None" and ni: "no_interrupt e"
  shows "\<exists>w1 st1 w' st' ev es.
           process_all e w st i xs = (w1, st1, None)
         \<and> process_all e w st i (xs @ idea # ys) = (w', st', None)
         \<and> total st' = total st + int (length (xs @ idea # ys))
         \<and> console w' = console w1 @ ev # es
         \<and> ev = (case snd (process_stages e w1 idea) of
                   Inl x \<Rightarrow> Failed (i + int (length xs)) (str_exn x)
                 | Inr u \<Rightarrow> Completed (i + int (length xs)))
         \<and> map event_item es = map (\<lambda>j. i + int (length xs) + 1 + int j) [0..<length ys]
         \<and> (\<forall>w2 x. process_stages e w1 idea = (w2, Inl x) \<and> \<not> sheets_down e ''Errors_Log'' \<longrightarrow>
               error_row (now w2) idea (str_exn x) \<in> set (rows w' ''Errors_Log''))
         \<and> (\<forall>x. generate_video_prompt e idea = Inl x \<longrightarrow>
               snd (process_stages e w1 idea) = Inl x)
         \<and> (\<forall>p w2. generate_video_prompt e idea = Inr p
               \<and> generate e w1 p MAX_RETRIES = (w2, Inr None) \<longrightarrow>
               snd (process_stages e w1 idea) = Inl (Exception ''Video generation returned None''))
         \<and> (\<forall>p w2 f x. generate_video_prompt e idea = Inr p
               \<and> generate e w1 p MAX_RETRIES = (w2, Inr (Some f)) \<and> upload e f idea = Inl x \<longrightarrow>
               snd (process_stages e w1 idea) = Inl x)"
proof -
  let ?k = "i + int (length xs)"
  from hdr have hx: "\<forall>x \<in> set xs. print_header x = None"
    and hi: "print_header idea = None" and hy: "\<forall>x \<in> set ys. print_header x = None"
    by simp_all
  from process_all_ok[OF hx ni, of w st i] obtain w1 st1 where
    p1: "process_all e w st i xs = (w1, st1, None)" by blast
  from process_idea_ok[OF hi ni, of w1 st1 ?k] obtain w2 st2 where
    p2: "process_idea e w1 st1 ?k idea = (w2, st2, None)"
    and c2: "console w2 = console w1 @
                [case snd (process_stages e w1 idea) of
                   Inl x \<Rightarrow> Failed ?k (str_exn x) | Inr u \<Rightarrow> Completed ?k]"
    and l2: "\<forall>w3 x. process_stages e w1 idea = (w3, Inl x) \<longrightarrow> \<not> sheets_down e ''Errors_Log'' \<longrightarrow>
                  error_row (now w3) idea (str_exn x) \<in> set (rows w2 ''Errors_Log'')"
    by blast
  from process_all_ok[OF hy ni, of w2 st2 "?k + 1"] obtain w' st' where
    p3: "process_all e w2 st2 (?k + 1) ys = (w', st', None)"
    and r3: "\<forall>n. set (rows w2 n) \<subseteq> set (rows w' n)" by blast
  from process_all_counts[OF p3] obtain es where
    c3: "console w' = console w2 @ es"
    and m3: "map event_item es = map (\<lambda>j. ?k + 1 + int j) [0..<length ys]" by blast
  have whole: "process_all e w st i (xs @ idea # ys) = (w', st', None)"
    using p1 p2 p3 by (simp add: process_all_append)
  from process_all_counts[OF whole]
  have t: "total st' = total st + int (length (xs @ idea # ys))" by blast
  have c: "console w' = console w1 @
      (case snd (process_stages e w1 idea) of
         Inl x \<Rightarrow> Failed ?k (str_exn x) | Inr u \<Rightarrow> Completed ?k) # es"
    using c2 c3 by simp
  have l: "\<forall>w3 x. process_stages e w1 idea = (w3, Inl x) \<and> \<not> sheets_down e ''Errors_Log'' \<longrightarrow>
               error_row (now w3) idea (str_exn x) \<in> set (rows w' ''Errors_Log'')"
    using l2 r3 by blast
  note f = process_stages_fails[of e idea w1]
  from p1 whole t c m3 l f show ?thesis by blast
qed

text \<open>
  A batch of three ideas where only the upload of the second fails: the first and the third
  are completed, the second is failed and logged, and the loop runs to its end.
\<close>

lemma isolation_of_second_upload:
  "print_header (full_idea ''one'') = None \<and> print_header (full_idea ''two'') = None
   \<and> print_header (full_idea ''three'') = None
   \<and> no_interrupt (stub (ready_after 0) (publish_unless ''two'') three_ideas)
   \<and> process_all (stub (ready_after 0) (publish_unless ''two'') three_ideas) w0 st0 1
         [full_idea ''one'']
       = (w0\<lparr>posts := 1,
              worksheets := [''Videos_Log'' \<mapsto>
                [map Str [''Timestamp'', ''Title'', ''YouTube URL'', ''YouTube ID'', ''Status'',
                          ''Virality Score'', ''Keywords''],
                 [Time 0, Str ''one'', Str ''https://youtube.com/watch?v=abc123'', Str ''abc123'',
                  Str ''published'', Num 7, Str ''deep work, focus'']]],
              removed := [VideoFile 0], console := [Completed 1]\<rparr>,
          st0\<lparr>total := 1, successful := 1\<rparr>, None)
   \<and> console (fst (process_all (stub (ready_after 0) (publish_unless ''two'') three_ideas) w0 st0 1
         three_ideas))
       = [Completed 1, Failed 2 ''quota exceeded'', Completed 3]
   \<and> snd (process_all (stub (ready_after 0) (publish_unless ''two'') three_ideas) w0 st0 1
         three_ideas)
       = (\<lparr>total = 3, successful = 2, failed = 1, start_time = 0\<rparr>, None)
   \<and> rows (fst (process_all (stub (ready_after 0) (publish_unless ''two'') three_ideas) w0 st0 1
         three_ideas)) ''Errors_Log''
       = [map Str [''Timestamp'', ''Title'', ''Error'', ''Stage''],
          [Time 0, Str ''two'', Str ''quota exceeded'', Str ''video_generation'']]"
proof -
  let ?e = "stub (ready_after 0) (publish_unless ''two'') three_ideas"
  have h: "\<forall>x \<in> set ([full_idea ''one''] @ full_idea ''two'' # [full_idea ''three'']).
             print_header x = None"
    by (simp add: print_header_def full_idea_def)
  have n: "no_interrupt ?e"
    by (simp add: no_interrupt_def stub_def ready_after_def publish_unless_def)
  from isolation_when_headers_print[OF h n, of w0 st0 1] obtain w1 st1 w' st' where
    "process_all ?e w0 st0 1 [full_idea ''one''] = (w1, st1, None)"
    "process_all ?e w0 st0 1 ([full_idea ''one''] @ full_idea ''two'' # [full_idea ''three''])
       = (w', st', None)"
    by blast
  then have "snd (snd (process_all ?e w0 st0 1 three_ideas)) = None"
    by (simp add: three_ideas_def)
  moreover have "process_all ?e w0 st0 1 [full_idea ''one'']
       = (w0\<lparr>posts := 1,
              worksheets := [''Videos_Log'' \<mapsto>
                [map Str [''Timestamp'', ''Title'', ''YouTube URL'', ''YouTube ID'', ''Status'',
                          ''Virality Score'', ''Keywords''],
                 [Time 0, Str ''one'', Str ''https://youtube.com/watch?v=abc123'', Str ''abc123'',
                  Str ''published'', Num 7, Str ''deep work, focus'']]],
              removed := [VideoFile 0], console := [Completed 1]\<rparr>,
          st0\<lparr>total := 1, successful := 1\<rparr>, None)"
    by (simp add: run_defs cong: prod.case_cong_weak)
  moreover have "console (fst (process_all ?e w0 st0 1 three_ideas))
       = [Completed 1, Failed 2 ''quota exceeded'', Completed 3]"
    by (simp add: run_defs cong: prod.case_cong_weak)
  moreover have "fst (snd (process_all ?e w0 st0 1 three_ideas))
       = \<lparr>total = 3, successful = 2, failed = 1, start_time = 0\<rparr>"
    by (simp add: run_defs cong: prod.case_cong_weak)
  moreover have "rows (fst (process_all ?e w0 st0 1 three_ideas)) ''Errors_Log''
       = [map Str [''Timestamp'', ''Title'', ''Error'', ''Stage''],
          [Time 0, Str ''two'', Str ''quota exceeded'', Str ''video_generation'']]"
    by (simp add: run_defs cong: prod.case_cong_weak)
  ultimately show ?thesis using h n
    by (simp add: prod_eq_iff)
qed

section \<open>The properties\<close>

subsection \<open>Failure isolation\<close>

text \<open>
  C1 (failure isolation), at a batch where the code breaks it. The first idea's upload
  fails: the item is failed and logged, and the loop goes on. The second idea has no
  \<^verbatim>\<open>hook\<close>: the header of the item reads the key before the per-item \<^verbatim>\<open>try\<close>, so the
  \<^verbatim>\<open>KeyError\<close> leaves the loop and \<^verbatim>\<open>run_pipeline\<close>. The item is counted in \<open>total\<close> but is
  neither failed nor logged, the third idea is never attempted (one request was made in
  all), and there is no summary. A key read inside the \<^verbatim>\<open>try\<close> is isolated: when the second
  idea lacks its \<^verbatim>\<open>description\<close> instead, it alone is failed and the third is completed.
\<close>

theorem missing_header_key_aborts_batch:
  "snd (process_all (stub (ready_after 0) (publish_unless ''one'') hook_missing) w0 st0 1
          hook_missing)
     = (\<lparr>total = 2, successful = 0, failed = 1, start_time = 0\<rparr>, Some (KeyError ''hook''))
   \<and> snd (run_pipeline (stub (ready_after 0) (publish_unless ''one'') hook_missing) w0)
     = Raised (KeyError ''hook'')
   \<and> console (fst (run_pipeline (stub (ready_after 0) (publish_unless ''one'') hook_missing) w0))
     = [Failed 1 ''quota exceeded'']
   \<and> rows (fst (run_pipeline (stub (ready_after 0) (publish_unless ''one'') hook_missing) w0))
        ''Errors_Log''
     = [map Str [''Timestamp'', ''Title'', ''Error'', ''Stage''],
        [Time 0, Str ''one'', Str ''quota exceeded'', Str ''video_generation'']]
   \<and> posts (fst (run_pipeline (stub (ready_after 0) (publish_unless ''one'') hook_missing) w0))
     = 1
   \<and> snd (run_pipeline (stub (ready_after 0) publish_ok description_missing) w0)
     = Summary \<lparr>total = 3, successful = 2, failed = 1, start_time = 0\<rparr>
   \<and> console (fst (run_pipeline (stub (ready_after 0) publish_ok description_missing) w0))
     = [Completed 1, Failed 2 (str_exn (KeyError ''description'')), Completed 3]"
  by (simp add: run_defs cong: prod.case_cong_weak)

subsection \<open>The counters of a run\<close>

text \<open>
  C2 (counters). When \<^verbatim>\<open>run_pipeline\<close> reaches its summary for a batch of \<open>N\<close> ideas, then
  \<open>total = N\<close> and \<open>successful + failed = total\<close>. Every idea, in order, has exactly one result
  event; \<open>successful\<close> counts the completed ones and \<open>failed\<close> the failed ones, so each item
  adds one to exactly one of the two counters.
\<close>

theorem batch_counters:
  assumes "run_pipeline e w = (w', Summary st)"
  shows "\<exists>ideas es. claude_ideas e = Inr ideas
           \<and> total st = int (length ideas)
           \<and> successful st + failed st = total st
           \<and> console w' = console w @ es
           \<and> map event_item es = map (\<lambda>j. 1 + int j) [0..<length ideas]
           \<and> successful st = int (length (filter is_completed es))
           \<and> failed st = int (length (filter (\<lambda>ev. \<not> is_completed ev) es))"
proof -
  let ?st = "\<lparr>total = 0, successful = 0, failed = 0, start_time = now w\<rparr>"
  from assms obtain ideas w1 where
    i: "claude_ideas e = Inr ideas" and l: "log_ideas e w ideas = (w1, None)"
    and p: "process_all e w1 ?st 1 ideas = (w', st, None)"
    by (auto simp: run_pipeline_def Let_def split: option.splits sum.splits prod.splits if_splits)
  from process_all_counts[OF p] obtain es where
    t: "total st = int (length ideas)" and c: "console w' = console w1 @ es"
    and m: "map event_item es = map (\<lambda>j. 1 + int j) [0..<length ideas]"
    and s: "successful st = int (length (filter is_completed es))"
    and f: "failed st = int (length (filter (\<lambda>ev. \<not> is_completed ev) es))"
    by auto
  from m have "length es = length ideas" by (metis length_map length_upt minus_nat.diff_0)
  with s f t have "successful st + failed st = total st"
    using sum_length_filter_compl[of is_completed es] by simp
  moreover have "console w' = console w @ es" using c log_ideas_frame[OF l] by simp
  ultimately show ?thesis using i t m s f by blast
qed

text \<open>
  The run of the three ideas ends with the summary 3 = 2 + 1.
\<close>

theorem batch_counters_witness:
  "snd (run_pipeline (stub (ready_after 0) (publish_unless ''two'') three_ideas) w0)
     = Summary \<lparr>total = 3, successful = 2, failed = 1, start_time = 0\<rparr>
   \<and> console (fst (run_pipeline (stub (ready_after 0) (publish_unless ''two'') three_ideas) w0))
     = [Completed 1, Failed 2 ''quota exceeded'', Completed 3]"
proof -
  let ?e = "stub (ready_after 0) (publish_unless ''two'') three_ideas"
  have r: "snd (run_pipeline ?e w0) = Summary \<lparr>total = 3, successful = 2, failed = 1, start_time = 0\<rparr>"
    by (simp add: run_defs cong: prod.case_cong_weak)
  then obtain w' where
    "run_pipeline ?e w0 = (w', Summary \<lparr>total = 3, successful = 2, failed = 1, start_time = 0\<rparr>)"
    by (cases "run_pipeline ?e w0") auto
  from batch_counters[OF this] obtain es where
    "console w' = console w0 @ es" by blast
  have "console (fst (run_pipeline ?e w0)) = [Completed 1, Failed 2 ''quota exceeded'', Completed 3]"
    by (simp add: run_defs cong: prod.case_cong_weak)
  with r show ?thesis by simp
qed

subsection \<open>Exhausting the retries\<close>

text \<open>
  C3 (exhaustion), as the code has it. With \<open>max_retries = 5\<close> and a 503 answer to each of the
  next five requests, \<^verbatim>\<open>generate\<close> makes exactly five requests, writes no file and returns
  \<^verbatim>\<open>None\<close>. It sleeps after each of the five answers, the fifth included: the waits are
  \<open>RETRY_WAIT\<close> times 1, 2, 3, 4 and 5.
\<close>

theorem generate_exhausted:
  assumes nr: "\<forall>j<5. \<exists>c. http_post e (posts w + j) = Response 503 c"
  shows "\<exists>w'. generate e w prompt 5 = (w', Inr None)
           \<and> posts w' = posts w + 5
           \<and> sleeps w' = sleeps w @ map (\<lambda>n. RETRY_WAIT * n) [1, 2, 3, 4, 5]
           \<and> files w' = files w"
proof -
  let ?wk = "w\<lparr>now := now w + sum_list (waits_503 0 5), posts := posts w + 5,
                sleeps := sleeps w @ waits_503 0 5\<rparr>"
  have "generate e w prompt 5 = generate_loop e ?wk (0 + int 5) 5"
    unfolding generate_def using nr by (intro generate_loop_503s) simp_all
  also have "\<dots> = (?wk, Inr None)"
    by (subst generate_loop.simps) simp
  finally have "generate e w prompt 5 = (?wk, Inr None)" .
  moreover have "waits_503 0 5 = map (\<lambda>n. RETRY_WAIT * n) [1, 2, 3, 4, 5]"
    by (simp add: waits_503_def upt_conv_Cons)
  ultimately show ?thesis by simp
qed

text \<open>
  An endpoint that always answers 503 is asked five times.
\<close>

theorem generate_exhausted_witness:
  "posts (fst (generate (stub always_503 publish_ok []) w0 ''a sunrise'' 5)) = 5
   \<and> snd (generate (stub always_503 publish_ok []) w0 ''a sunrise'' 5) = Inr None"
proof -
  let ?e = "stub always_503 publish_ok []"
  have a: "\<forall>j<5. \<exists>c. http_post ?e (posts w0 + j) = Response 503 c"
    by (simp add: stub_def always_503_def)
  from generate_exhausted[OF a, of "''a sunrise''"] show ?thesis
    by (auto simp: w0_def)
qed

text \<open>
  The loop does not return as soon as the counter reaches \<open>max_retries\<close>: after the fifth 503
  answer it sleeps another 100 seconds (five waits for five requests, 300 seconds in all) and
  only then returns \<^verbatim>\<open>None\<close>.
\<close>

theorem generate_exhausted_sleeps_after_last_attempt:
  "generate (stub always_503 publish_ok []) w0 ''a sunrise'' 5
     = (w0\<lparr>now := 300, posts := 5, sleeps := [20, 40, 60, 80, 100]\<rparr>, Inr None)"
  by (simp add: generate_def generate_loop.simps post_def sleep_def stub_def always_503_def
      w0_def RETRY_WAIT_def)

subsection \<open>Linear backoff while the model loads\<close>

text \<open>
  C4 (linear backoff). For every \<open>k < max_retries\<close>: when the next \<open>k\<close> requests are answered
  503 and the request after them 200, \<^verbatim>\<open>generate\<close> returns the path of the file it wrote after
  exactly \<open>k + 1\<close> requests, having slept exactly \<open>k\<close> times, for \<open>RETRY_WAIT * 1\<close>, ...,
  \<open>RETRY_WAIT * k\<close> seconds, a strictly increasing sequence.
\<close>

theorem generate_ready_after_k:
  assumes nr: "\<forall>j<k. \<exists>c. http_post e (posts w + j) = Response 503 c"
    and rd: "http_post e (posts w + k) = Response 200 content"
    and lt: "int k < max_retries"
  shows "\<exists>w'. generate e w prompt max_retries = (w', Inr (Some (VideoFile (now w'))))
           \<and> VideoFile (now w') \<in> files w'
           \<and> posts w' = posts w + k + 1
           \<and> sleeps w' = sleeps w @ map (\<lambda>n. RETRY_WAIT * int n) [1..<Suc k]
           \<and> sorted_wrt (<) (map (\<lambda>n. RETRY_WAIT * int n) [1..<Suc k])"
proof -
  let ?wk = "w\<lparr>now := now w + sum_list (waits_503 0 k), posts := posts w + k,
                sleeps := sleeps w @ waits_503 0 k\<rparr>"
  let ?w' = "?wk\<lparr>posts := Suc (posts ?wk), files := insert (VideoFile (now ?wk)) (files ?wk)\<rparr>"
  have "generate e w prompt max_retries = generate_loop e ?wk (0 + int k) max_retries"
    unfolding generate_def using nr lt by (intro generate_loop_503s) simp_all
  also have "\<dots> = (?w', Inr (Some (VideoFile (now ?w'))))"
    using rd lt by (subst generate_loop.simps) (simp add: post_def Let_def)
  finally have "generate e w prompt max_retries = (?w', Inr (Some (VideoFile (now ?w'))))" .
  moreover have "VideoFile (now ?w') \<in> files ?w'" by simp
  moreover have "posts ?w' = posts w + k + 1" by simp
  moreover have "sleeps ?w' = sleeps w @ map (\<lambda>n. RETRY_WAIT * int n) [1..<Suc k]"
    by (simp add: waits_503_zero del: upt_Suc)
  ultimately show ?thesis using waits_increasing by blast
qed

text \<open>
  Three 503 answers, then a 200: four requests and the waits 20, 40, 60.
\<close>

theorem generate_ready_after_k_witness:
  "generate (stub (ready_after 3) publish_ok []) w0 ''a sunrise'' MAX_RETRIES
     = (w0\<lparr>now := 120, posts := 4, sleeps := [20, 40, 60], files := {VideoFile 120}\<rparr>,
        Inr (Some (VideoFile 120)))"
proof -
  let ?e = "stub (ready_after 3) publish_ok []"
  have a: "\<forall>j<3. \<exists>c. http_post ?e (posts w0 + j) = Response 503 c"
    by (simp add: stub_def ready_after_def w0_def)
  have b: "http_post ?e (posts w0 + 3) = Response 200 ''mp4''"
    by (simp add: stub_def ready_after_def w0_def)
  have c: "int 3 < MAX_RETRIES" by (simp add: MAX_RETRIES_def)
  from generate_ready_after_k[OF a b c, of "''a sunrise''"] obtain w' where
    w': "generate ?e w0 ''a sunrise'' MAX_RETRIES = (w', Inr (Some (VideoFile (now w'))))"
    by blast
  have "generate ?e w0 ''a sunrise'' MAX_RETRIES
     = (w0\<lparr>now := 120, posts := 4, sleeps := [20, 40, 60], files := {VideoFile 120}\<rparr>,
        Inr (Some (VideoFile 120)))"
    by (simp add: generate_def generate_loop.simps post_def sleep_def stub_def ready_after_def
        w0_def MAX_RETRIES_def RETRY_WAIT_def Let_def)
  with w' show ?thesis by simp
qed

subsection \<open>Flat wait for errors\<close>

text \<open>
  C5 (flat wait for errors, one counter). While the budget is not used up, a failed request
  (an answer that is not 200, or a caught exception) increments the counter, sleeps
  \<open>wait_after\<close> of the outcome (\<open>RETRY_WAIT\<close> for an error, \<open>RETRY_WAIT\<close> times the counter
  for a 503) and goes round the loop again. Over a whole call the waits are those of the
  failed requests in order, each computed from the one counter that every failure
  increments, and the number of failed requests never exceeds the budget; the call gives up
  exactly when the budget is used up.
\<close>

theorem flat_wait_for_errors:
  "(retry_count < max_retries \<and> retried (http_post e (posts w))
      \<longrightarrow> generate_loop e w retry_count max_retries
            = generate_loop e
                (sleep (wait_after (http_post e (posts w)) (retry_count + 1))
                   (w\<lparr>posts := Suc (posts w)\<rparr>))
                (retry_count + 1) max_retries)
   \<and> (generate_loop e w retry_count max_retries = (w', r)
      \<longrightarrow> (\<exists>m. sleeps w' = sleeps w @
                 map (\<lambda>j. wait_after (http_post e (posts w + j)) (retry_count + 1 + int j)) [0..<m]
           \<and> (\<forall>j<m. retried (http_post e (posts w + j)))
           \<and> posts w' = posts w + m + (if r = Inr None then 0 else 1)
           \<and> retry_count + int m \<le> max retry_count max_retries
           \<and> (r = Inr None \<longrightarrow> retry_count + int m = max retry_count max_retries)))"
  using retried_step[of retry_count max_retries e w]
    generate_loop_waits[of e w retry_count max_retries w' r]
  by blast

text \<open>
  A 503, a 500, a timeout, a 503 and a 200: the waits are 20, 20, 20 and 80. The second 503
  waits four times \<open>RETRY_WAIT\<close>, since the two errors between were counted too.
\<close>

theorem flat_wait_for_errors_witness:
  "generate_loop (stub flaky publish_ok []) w0 0 MAX_RETRIES
     = (w0\<lparr>now := 140, posts := 5, sleeps := [20, 20, 20, 80], files := {VideoFile 140}\<rparr>,
        Inr (Some (VideoFile 140)))
   \<and> retried (flaky 1) \<and> wait_after (flaky 1) 2 = RETRY_WAIT
   \<and> retried (flaky 3) \<and> wait_after (flaky 3) 4 = RETRY_WAIT * 4
   \<and> (\<exists>m. [20, 20, 20, 80] =
            map (\<lambda>j. wait_after (flaky j) (1 + int j)) [0..<m] \<and> int m \<le> MAX_RETRIES)"
proof -
  let ?e = "stub flaky publish_ok []"
  let ?w = "w0\<lparr>now := 140, posts := 5, sleeps := [20, 20, 20, 80], files := {VideoFile 140}\<rparr>"
  have run: "generate_loop ?e w0 0 MAX_RETRIES = (?w, Inr (Some (VideoFile 140)))"
    by (simp add: generate_loop.simps post_def sleep_def stub_def flaky_def
        w0_def MAX_RETRIES_def RETRY_WAIT_def Let_def)
  from flat_wait_for_errors[of 0 MAX_RETRIES ?e w0 ?w "Inr (Some (VideoFile 140))"] run
  obtain m where
    m: "sleeps ?w = sleeps w0 @ map (\<lambda>j. wait_after (http_post ?e (posts w0 + j)) (0 + 1 + int j)) [0..<m]"
      "0 + int m \<le> max 0 MAX_RETRIES"
    by blast
  have s: "[20, 20, 20, 80] = map (\<lambda>j. wait_after (flaky j) (1 + int j)) [0..<m]"
    using m(1) by (simp add: w0_def stub_def)
  have b: "int m \<le> MAX_RETRIES" using m(2) by (simp add: MAX_RETRIES_def)
  from s b have "\<exists>m. [20, 20, 20, 80] =
            map (\<lambda>j. wait_after (flaky j) (1 + int j)) [0..<m] \<and> int m \<le> MAX_RETRIES"
    by (intro exI[of _ m] conjI)
  moreover have "retried (flaky 1) \<and> wait_after (flaky 1) 2 = RETRY_WAIT
      \<and> retried (flaky 3) \<and> wait_after (flaky 3) 4 = RETRY_WAIT * 4"
    by (simp add: retried_def wait_after_def flaky_def)
  ultimately show ?thesis using run by blast
qed

subsection \<open>Release of the video file\<close>

text \<open>
  C6 (release of the video file). The cleanup stands on the success path only. When the
  upload raises, the item is failed and its video file stays on disk: \<^verbatim>\<open>os.remove\<close> was never
  called. When the upload succeeds, the file is removed once.
\<close>

theorem video_left_behind_when_upload_fails:
  "snd (run_pipeline (stub (ready_after 0) (publish_unless ''one'') [full_idea ''one'']) w0)
     = Summary \<lparr>total = 1, successful = 0, failed = 1, start_time = 0\<rparr>
   \<and> files (fst (run_pipeline (stub (ready_after 0) (publish_unless ''one'') [full_idea ''one'']) w0))
     = {VideoFile 0}
   \<and> removed (fst (run_pipeline (stub (ready_after 0) (publish_unless ''one'') [full_idea ''one'']) w0))
     = []
   \<and> files (fst (run_pipeline (stub (ready_after 0) publish_ok [full_idea ''one'']) w0)) = {}
   \<and> removed (fst (run_pipeline (stub (ready_after 0) publish_ok [full_idea ''one'']) w0))
     = [VideoFile 0]"
  by (simp add: run_defs cong: prod.case_cong_weak)

subsection \<open>How a run ends\<close>

text \<open>
  C7 (the run ends with a summary), as the code has it. When the clients are built, the idea
  generation succeeds, every idea carries the keys its header prints and no stage call is
  interrupted, \<^verbatim>\<open>run_pipeline\<close> ends with the summary, whatever the number of successes. When
  the idea generation fails, the exception is re-raised and there is no summary.
\<close>

theorem run_summary:
  "(init_clients e = None \<and> claude_ideas e = Inr ideas
      \<and> (\<forall>x \<in> set ideas. print_header x = None) \<and> no_interrupt e
      \<longrightarrow> (\<exists>w' st. run_pipeline e w = (w', Summary st) \<and> total st = int (length ideas)))
   \<and> (init_clients e = None \<and> claude_ideas e = Inl x \<longrightarrow> run_pipeline e w = (w, Raised x))"
proof (intro conjI impI)
  assume a: "init_clients e = None \<and> claude_ideas e = Inr ideas
      \<and> (\<forall>x \<in> set ideas. print_header x = None) \<and> no_interrupt e"
  let ?st = "\<lparr>total = 0, successful = 0, failed = 0, start_time = now w\<rparr>"
  from a have "\<forall>x \<in> set ideas. title x \<noteq> None" using print_header_title by blast
  from log_ideas_ok[OF this, of e w] obtain w1 where l: "log_ideas e w ideas = (w1, None)" by blast
  from a process_all_ok[of ideas e w1 ?st 1] obtain w' st where
    p: "process_all e w1 ?st 1 ideas = (w', st, None)" by blast
  from process_all_counts[OF p] have "total st = int (length ideas)" by simp
  moreover have "run_pipeline e w = (w', Summary st)"
    using a l p by (simp add: run_pipeline_def Let_def)
  ultimately show "\<exists>w' st. run_pipeline e w = (w', Summary st) \<and> total st = int (length ideas)"
    by blast
next
  assume "init_clients e = None \<and> claude_ideas e = Inl x"
  then show "run_pipeline e w = (w, Raised x)"
    by (simp add: run_pipeline_def Let_def)
qed

text \<open>
  Two ideas whose uploads both fail: the run ends with the summary, with no success.
\<close>

theorem run_summary_witness:
  "no_interrupt (stub (ready_after 0) (publish_unless ''two'') [full_idea ''two'', full_idea ''two''])
   \<and> snd (run_pipeline
        (stub (ready_after 0) (publish_unless ''two'') [full_idea ''two'', full_idea ''two'']) w0)
       = Summary \<lparr>total = 2, successful = 0, failed = 2, start_time = 0\<rparr>"
proof -
  let ?ideas = "[full_idea ''two'', full_idea ''two'']"
  let ?e = "stub (ready_after 0) (publish_unless ''two'') ?ideas"
  have n: "no_interrupt ?e"
    by (simp add: no_interrupt_def stub_def ready_after_def publish_unless_def)
  have h: "init_clients ?e = None \<and> claude_ideas ?e = Inr ?ideas
      \<and> (\<forall>x \<in> set ?ideas. print_header x = None) \<and> no_interrupt ?e"
    using n by (simp add: stub_def print_header_def full_idea_def)
  from run_summary[of ?e ?ideas w0] h obtain w' st where
    "run_pipeline ?e w0 = (w', Summary st)" by blast
  moreover have "snd (run_pipeline ?e w0)
       = Summary \<lparr>total = 2, successful = 0, failed = 2, start_time = 0\<rparr>"
    by (simp add: run_defs cong: prod.case_cong_weak)
  ultimately show ?thesis using n by simp
qed

text \<open>
  A failure of the idea generation leaves \<^verbatim>\<open>run_pipeline\<close> as an exception, with no summary.
\<close>

theorem idea_generation_failure_has_no_summary:
  "run_pipeline ((stub (ready_after 0) publish_ok [])\<lparr>claude_ideas := Inl (Exception ''invalid JSON'')\<rparr>) w0
     = (w0, Raised (Exception ''invalid JSON''))"
  by (simp add: run_pipeline_def stub_def)

subsection \<open>Cancellation\<close>

text \<open>
  C8 (cancellation), as the code has it. Neither loop tests a cancellation signal. An
  interrupt raised by a request leaves the retry loop at once, without a sleep. An interrupt
  in a stage of an item leaves the loop over the ideas: the item is counted in \<open>total\<close>
  only, it gets no event and no error row, and the remaining ideas are not attempted. A loop
  that ends normally has attempted every idea.
\<close>

theorem no_cancellation_check:
  "(retry_count < max_retries \<and> http_post e (posts w) = RequestRaises KeyboardInterrupt
      \<longrightarrow> generate_loop e w retry_count max_retries
            = (w\<lparr>posts := Suc (posts w)\<rparr>, Inl KeyboardInterrupt))
   \<and> (print_header idea = None \<and> process_stages e w idea = (w1, Inl KeyboardInterrupt)
      \<longrightarrow> process_all e w st i (idea # rest)
            = (w1, st\<lparr>total := total st + 1\<rparr>, Some KeyboardInterrupt))
   \<and> (process_all e w st i ideas = (w', st', None)
      \<longrightarrow> total st' = total st + int (length ideas))"
proof (intro conjI impI)
  assume "retry_count < max_retries \<and> http_post e (posts w) = RequestRaises KeyboardInterrupt"
  then show "generate_loop e w retry_count max_retries
            = (w\<lparr>posts := Suc (posts w)\<rparr>, Inl KeyboardInterrupt)"
    by (subst generate_loop.simps) (simp add: post_def)
next
  assume "print_header idea = None \<and> process_stages e w idea = (w1, Inl KeyboardInterrupt)"
  then show "process_all e w st i (idea # rest)
            = (w1, st\<lparr>total := total st + 1\<rparr>, Some KeyboardInterrupt)"
    by (simp add: process_idea_def Let_def)
next
  assume "process_all e w st i ideas = (w', st', None)"
  from process_all_counts[OF this] show "total st' = total st + int (length ideas)" by simp
qed

text \<open>
  An interrupt during the first request of a batch of two, and the batch of three that no
  interrupt disturbs.
\<close>

theorem no_cancellation_check_witness:
  "generate_loop (stub interrupted publish_ok []) w0 0 MAX_RETRIES
     = (w0\<lparr>posts := 1\<rparr>, Inl KeyboardInterrupt)
   \<and> process_all (stub interrupted publish_ok []) w0 st0 1 [full_idea ''one'', full_idea ''two'']
     = (w0\<lparr>posts := 1\<rparr>, st0\<lparr>total := 1\<rparr>, Some KeyboardInterrupt)
   \<and> snd (process_all (stub (ready_after 0) (publish_unless ''two'') three_ideas) w0 st0 1
            three_ideas)
     = (\<lparr>total = 3, successful = 2, failed = 1, start_time = 0\<rparr>, None)"
proof -
  let ?e = "stub interrupted publish_ok []"
  let ?e3 = "stub (ready_after 0) (publish_unless ''two'') three_ideas"
  have a: "(0::int) < MAX_RETRIES \<and> http_post ?e (posts w0) = RequestRaises KeyboardInterrupt"
    by (simp add: MAX_RETRIES_def stub_def interrupted_def)
  have b: "print_header (full_idea ''one'') = None
      \<and> process_stages ?e w0 (full_idea ''one'') = (w0\<lparr>posts := 1\<rparr>, Inl KeyboardInterrupt)"
    by (simp add: run_defs cong: prod.case_cong_weak)
  have c: "snd (process_all ?e3 w0 st0 1 three_ideas)
     = (\<lparr>total = 3, successful = 2, failed = 1, start_time = 0\<rparr>, None)"
    by (simp add: run_defs cong: prod.case_cong_weak)
  note t = no_cancellation_check[of 0 MAX_RETRIES ?e w0 "full_idea ''one''" "w0\<lparr>posts := 1\<rparr>"
      st0 1 "[full_idea ''two'']"]
  from t a have "generate_loop ?e w0 0 MAX_RETRIES = (w0\<lparr>posts := Suc (posts w0)\<rparr>, Inl KeyboardInterrupt)"
    by blast
  then have g: "generate_loop ?e w0 0 MAX_RETRIES = (w0\<lparr>posts := 1\<rparr>, Inl KeyboardInterrupt)"
    by (simp add: w0_def)
  from t b have "process_all ?e w0 st0 1 (full_idea ''one'' # [full_idea ''two''])
            = (w0\<lparr>posts := 1\<rparr>, st0\<lparr>total := total st0 + 1\<rparr>, Some KeyboardInterrupt)"
    by blast
  then have p: "process_all ?e w0 st0 1 [full_idea ''one'', full_idea ''two'']
     = (w0\<lparr>posts := 1\<rparr>, st0\<lparr>total := 1\<rparr>, Some KeyboardInterrupt)"
    by (simp add: st0_def)
  from g p c show ?thesis by simp
qed

text \<open>
  An interrupt during the first request of a batch of two ideas: the run ends with the
  exception instead of statistics, and the item in flight is neither reported as failed nor
  logged to the error sheet.
\<close>

theorem interrupt_leaves_item_unresolved:
  "snd (run_pipeline (stub interrupted publish_ok [full_idea ''one'', full_idea ''two'']) w0)
     = Raised KeyboardInterrupt
   \<and> console (fst (run_pipeline (stub interrupted publish_ok [full_idea ''one'', full_idea ''two'']) w0))
     = []
   \<and> rows (fst (run_pipeline (stub interrupted publish_ok [full_idea ''one'', full_idea ''two'']) w0))
        ''Errors_Log'' = []
   \<and> posts (fst (run_pipeline (stub interrupted publish_ok [full_idea ''one'', full_idea ''two'']) w0))
     = 1"
  by (simp add: run_defs cong: prod.case_cong_weak)

subsection \<open>The upload body\<close>

text \<open>
  C9 (truncation at upload). For an idea with a title, keywords, a description and a hook,
  whatever their lengths, \<^verbatim>\<open>upload\<close> builds a body and sends it: the title is the first 100
  characters of the idea's title, the tags are the six fixed tags followed by the first five
  keywords without their spaces (at most 15 tags), and the hashtags of the description are
  built from the first five keywords only. Nothing is rejected for its length.
\<close>

theorem upload_truncates:
  assumes "title idea = Some t" and "keywords' idea = Some kws"
    and "description idea = Some d" and "hook idea = Some h"
  shows "\<exists>b. build_body idea = Inr b
           \<and> upload e video_path idea =
               (case youtube_insert e video_path b of
                  Inl x \<Rightarrow> Inl x
                | Inr video_id \<Rightarrow> Inr (video_id, ''https://youtube.com/watch?v='' @ video_id))
           \<and> snippet_title b = take 100 t \<and> length (snippet_title b) \<le> 100
           \<and> snippet_tags b = base_tags @ map strip_spaces (take 5 kws)
           \<and> length (snippet_tags b) \<le> 15
           \<and> snippet_description b = make_description d h (take 5 kws)"
proof -
  let ?b = "\<lparr>snippet_title = take 100 t,
             snippet_description = make_description d h kws,
             snippet_tags = take 15 (base_tags @ map strip_spaces (take 5 kws)),
             snippet_categoryId = ''22'',
             status_privacyStatus = ''public'',
             status_madeForKids = False\<rparr>"
  have b: "build_body idea = Inr ?b"
    using assms by (simp add: build_body_def getitem_def)
  have len: "length (base_tags @ map strip_spaces (take 5 kws)) \<le> 15"
    by (simp add: base_tags_def)
  have d: "make_description d h kws = make_description d h (take 5 kws)"
    by (simp add: make_description_def keyword_tags_take)
  have "upload e video_path idea =
               (case youtube_insert e video_path ?b of
                  Inl x \<Rightarrow> Inl x
                | Inr video_id \<Rightarrow> Inr (video_id, ''https://youtube.com/watch?v='' @ video_id))"
    by (simp add: upload_def b)
  moreover have "snippet_tags ?b = base_tags @ map strip_spaces (take 5 kws)"
    using len by simp
  moreover have "length (snippet_tags ?b) \<le> 15" by simp
  moreover have "snippet_description ?b = make_description d h (take 5 kws)"
    using d by simp
  moreover have "snippet_title ?b = take 100 t \<and> length (snippet_title ?b) \<le> 100" by simp
  ultimately show ?thesis using b by blast
qed

text \<open>
  A title of 120 characters and seven keywords: the body has a title of 100 characters and
  eleven tags.
\<close>

theorem upload_truncates_witness:
  "title long_idea = Some (replicate 120 CHR ''x'')
   \<and> (case build_body long_idea of
        Inl x \<Rightarrow> False
      | Inr b \<Rightarrow> snippet_title b = replicate 100 CHR ''x''
          \<and> snippet_tags b = [''motivation'', ''success'', ''mindset'', ''shorts'', ''viral'',
               ''selfimprovement'', ''deepwork'', ''k2'', ''k3'', ''k4'', ''k5''])"
proof -
  have t: "title long_idea = Some (replicate 120 CHR ''x'')"
    and k: "keywords' long_idea = Some [''deep work'', ''k2'', ''k3'', ''k4'', ''k5'', ''k6'', ''k7'']"
    and d: "description long_idea = Some ''what it shows''" and h: "hook long_idea = Some ''look''"
    by (simp_all add: long_idea_def)
  from upload_truncates[OF t k d h] obtain b where
    b: "build_body long_idea = Inr b" "snippet_title b = take 100 (replicate 120 CHR ''x'')"
      "snippet_tags b = base_tags @ map strip_spaces
         (take 5 [''deep work'', ''k2'', ''k3'', ''k4'', ''k5'', ''k6'', ''k7''])"
    by blast
  have "take 100 (replicate 120 CHR ''x'') = replicate 100 CHR ''x''" by simp
  with b t show ?thesis by (simp add: base_tags_def strip_spaces_def)
qed

subsection \<open>Error rows\<close>

text \<open>
  C10 (error rows). Whatever the error text and whichever stage it comes from, the row that
  \<^verbatim>\<open>log_error\<close> appends to the error sheet carries the stage \<^verbatim>\<open>video_generation\<close> and the first
  500 characters of the text; when the spreadsheet fails nothing is appended.
\<close>

theorem log_error_row:
  "rows (log_error e w idea error) ''Errors_Log'' =
     (if sheets_down e ''Errors_Log'' then rows w ''Errors_Log''
      else (if worksheets w ''Errors_Log'' = None
            then [map Str [''Timestamp'', ''Title'', ''Error'', ''Stage'']]
            else rows w ''Errors_Log'')
           @ [[Time (now w), Str (case title idea of None \<Rightarrow> ''Unknown'' | Some ti \<Rightarrow> ti),
               Str (take 500 error), Str ''video_generation'']])
   \<and> length (take 500 error) \<le> 500"
  by (auto simp: log_error_def rows_def append_row_def get_or_create_worksheet_def error_row_def
      split: option.splits)

text \<open>
  An error text of 600 characters, for an idea without a title.
\<close>

theorem log_error_row_witness:
  "rows (log_error (stub always_503 publish_ok []) w0 ((full_idea ''one'')\<lparr>title := None\<rparr>)
          (replicate 600 CHR ''e'')) ''Errors_Log''
     = [map Str [''Timestamp'', ''Title'', ''Error'', ''Stage''],
        [Time 0, Str ''Unknown'', Str (replicate 500 CHR ''e''), Str ''video_generation'']]"
  using log_error_row[of "stub always_503 publish_ok []" w0
      "(full_idea ''one'')\<lparr>title := None\<rparr>" "replicate 600 CHR ''e''"]
  by (simp add: stub_def w0_def rows_def full_idea_def)

end
